theory Spec2Isabelle
  imports Main "HOL-Library.AList"
begin

section \<open>JavaScript values, objects and classes\<close>

text \<open>
  The repository is TypeScript on top of the typeorm library.  Entities are plain
  JavaScript objects: own properties in insertion order, plus a prototype chain that
  decides \<^verbatim>\<open>instanceof\<close>.  A property that is absent reads as \<^verbatim>\<open>undefined\<close>.  A value
  that is itself an object carries the classes on its prototype chain and its own
  properties.
\<close>

datatype jsval =
  Undefined | Null | Bool bool | Num int | Str string
  | Obj "string list" "(string \<times> jsval) list"

type_synonym props = "(string \<times> jsval) list"

text \<open>\<^verbatim>\<open>obj[key]\<close>: the value of an own property, \<^verbatim>\<open>undefined\<close> when there is none.\<close>

definition get_prop :: "props \<Rightarrow> string \<Rightarrow> jsval" where
  "get_prop ps k = (case map_of ps k of None \<Rightarrow> Undefined | Some v \<Rightarrow> v)"

text \<open>\<^verbatim>\<open>obj[key] = v\<close>: overwrite in place, or append a new own property.\<close>

definition set_prop :: "props \<Rightarrow> string \<Rightarrow> jsval \<Rightarrow> props" where
  "set_prop ps k v = AList.update k v ps"

text \<open>\<^verbatim>\<open>Object.keys(obj)\<close>.\<close>

definition Object_keys :: "props \<Rightarrow> string list" where
  "Object_keys ps = map fst ps"

text \<open>
  A class: its name, the names of the classes it extends (nearest first) and the own
  properties its constructor leaves on a new instance.
\<close>

record js_class =
  cname :: string
  cancestors :: "string list"
  cfields :: props

text \<open>An object: the classes on its prototype chain and its own properties.\<close>

record obj =
  proto_chain :: "string list"
  own :: props

text \<open>\<^verbatim>\<open>new EntityClass()\<close>.\<close>

definition new :: "js_class \<Rightarrow> obj" where
  "new C = \<lparr>proto_chain = cname C # cancestors C, own = cfields C\<rparr>"

text \<open>\<^verbatim>\<open>entity instanceof EntityClass\<close>: the class is on the object's prototype chain.\<close>

definition instanceof :: "obj \<Rightarrow> js_class \<Rightarrow> bool" where
  "instanceof e C = (cname C \<in> set (proto_chain e))"

text \<open>
  The assignment \<^verbatim>\<open>entity[key] = v\<close>.  For the key \<^verbatim>\<open>__proto__\<close>, on an object that has
  no own property of that name, it runs the setter inherited from \<^verbatim>\<open>Object.prototype\<close>:
  no own property appears; \<^verbatim>\<open>null\<close> empties the prototype chain, an object becomes the
  prototype (so the chain is that object's), any other value is ignored.  For every
  other key it writes the own property.
\<close>

definition assign_prop :: "obj \<Rightarrow> string \<Rightarrow> jsval \<Rightarrow> obj" where
  "assign_prop e key v =
     (if key = ''__proto__'' \<and> map_of (own e) key = None
      then (case v of
              Null \<Rightarrow> e\<lparr>proto_chain := []\<rparr>
            | Obj chain ps \<Rightarrow> e\<lparr>proto_chain := chain\<rparr>
            | _ \<Rightarrow> e)
      else e\<lparr>own := set_prop (own e) key v\<rparr>)"

text \<open>
  The loop \<^verbatim>\<open>for (const key of Object.keys(src)) entity[key] = src[key]\<close>, which
  \<^verbatim>\<open>create\<close> runs on the new instance.
\<close>

definition assign :: "obj \<Rightarrow> props \<Rightarrow> obj" where
  "assign entity src =
     foldl (\<lambda>e key. assign_prop e key (get_prop src key)) entity (Object_keys src)"

text \<open>A thrown \<^verbatim>\<open>Error\<close> is a value of the result, next to the normal return.\<close>

datatype 'a outcome = Returned 'a | Thrown

section \<open>The typeorm repository underneath\<close>

text \<open>
  typeorm is an external library.  Its repository is modelled by the contract the
  source relies on: one table of rows keyed by the \<^verbatim>\<open>id\<close> property, and the entity
  metadata's optional delete-date column.  A row whose delete-date column holds a value
  is soft-deleted, and queries skip it unless \<^verbatim>\<open>withDeleted\<close> is true.  The metadata
  also names the nullable columns, and \<open>returning\<close> gives the values the database
  sends back for a row it has written (defaults, creation and update dates, versions).
\<close>

record store =
  target :: js_class
  deleteDateColumn :: "string option"
  nullableColumns :: "string list"
  returning :: "props \<Rightarrow> props"
  table :: "props list"

definition row_id :: "props \<Rightarrow> jsval" where
  "row_id r = get_prop r ''id''"

definition is_deleted :: "string option \<Rightarrow> props \<Rightarrow> bool" where
  "is_deleted col r =
     (case col of
        None \<Rightarrow> False
      | Some c \<Rightarrow> get_prop r c \<noteq> Undefined \<and> get_prop r c \<noteq> Null)"

text \<open>
  The query options of the source.  \<^verbatim>\<open>where\<close> is kept as the predicate on rows that the
  where-object (or array of where-objects) denotes; \<^verbatim>\<open>order\<close> as the sort key it denotes.
\<close>

record FindOptionsBase =
  withDeleted :: "bool option"
  order :: "(props \<Rightarrow> int) option"

record FindOneOptions = FindOptionsBase +
  whereOne :: "props \<Rightarrow> bool"

record FindOptions = FindOptionsBase +
  whereMany :: "(props \<Rightarrow> bool) option"
  skip :: nat

text \<open>The where-object \<^verbatim>\<open>{ id: i }\<close>.\<close>

definition by_id :: "jsval \<Rightarrow> props \<Rightarrow> bool" where
  "by_id i r = (row_id r = i)"

definition visible :: "store \<Rightarrow> bool option \<Rightarrow> props \<Rightarrow> bool" where
  "visible st wd r = (wd = Some True \<or> \<not> is_deleted (deleteDateColumn st) r)"

definition ordered :: "(props \<Rightarrow> int) option \<Rightarrow> props list \<Rightarrow> props list" where
  "ordered ord rs = (case ord of None \<Rightarrow> rs | Some key \<Rightarrow> sort_key key rs)"

text \<open>The rows a query matches, before any pagination.\<close>

definition matching :: "store \<Rightarrow> bool option \<Rightarrow> (props \<Rightarrow> int) option \<Rightarrow> (props \<Rightarrow> bool) \<Rightarrow> props list" where
  "matching st wd ord P = ordered ord (filter (\<lambda>r. visible st wd r \<and> P r) (table st))"

text \<open>
  Loading a row gives an instance of the target class on which every column of the row
  has been set.
\<close>

definition materialize :: "store \<Rightarrow> props \<Rightarrow> obj" where
  "materialize st r = assign (new (target st)) r"

definition typeorm_findOne :: "store \<Rightarrow> FindOneOptions \<Rightarrow> obj option" where
  "typeorm_findOne st q =
     (case matching st (withDeleted q) (order q) (whereOne q) of
        [] \<Rightarrow> None
      | r # _ \<Rightarrow> Some (materialize st r))"

text \<open>
  \<^verbatim>\<open>findAndCount\<close>: the page (after \<^verbatim>\<open>skip\<close>, at most \<^verbatim>\<open>take\<close> rows) and the count of all
  matching rows, which ignores \<^verbatim>\<open>skip\<close> and \<^verbatim>\<open>take\<close>.
\<close>

definition typeorm_findAndCount :: "store \<Rightarrow> FindOptions \<Rightarrow> nat \<Rightarrow> obj list \<times> nat" where
  "typeorm_findAndCount st q tk =
     (let m = matching st (withDeleted q) (order q)
                (case whereMany q of None \<Rightarrow> (\<lambda>r. True) | Some P \<Rightarrow> P)
      in (map (materialize st) (take tk (drop (skip q) m)), length m))"

text \<open>
  \<^verbatim>\<open>save\<close> writes the storage layer's values onto the entity it was given: first every
  nullable column whose value is \<^verbatim>\<open>undefined\<close> becomes \<^verbatim>\<open>null\<close>, then every value the
  database sent back is merged in.
\<close>

definition nullify :: "string list \<Rightarrow> props \<Rightarrow> props" where
  "nullify cols ps =
     foldl (\<lambda>r c. if get_prop r c = Undefined then set_prop r c Null else r) ps cols"

definition merge_returned :: "props \<Rightarrow> props \<Rightarrow> props" where
  "merge_returned ps g =
     foldl (\<lambda>r key. if get_prop g key = Undefined then r else set_prop r key (get_prop g key))
       ps (Object_keys g)"

definition persisted :: "store \<Rightarrow> props \<Rightarrow> props" where
  "persisted st ps = merge_returned (nullify (nullableColumns st) ps) (returning st ps)"

text \<open>The entity as \<^verbatim>\<open>save\<close> leaves it.\<close>

definition typeorm_saved :: "store \<Rightarrow> obj \<Rightarrow> obj" where
  "typeorm_saved st e = e\<lparr>own := persisted st (own e)\<rparr>"

text \<open>
  The table as \<^verbatim>\<open>save\<close> leaves it: the persisted properties replace the row with the
  entity's id, or become a new row when there is none.
\<close>

definition typeorm_save :: "store \<Rightarrow> obj \<Rightarrow> store" where
  "typeorm_save st e =
     (if list_ex (\<lambda>r. row_id r = row_id (own e)) (table st)
      then st\<lparr>table := map (\<lambda>r. if row_id r = row_id (own e) then persisted st (own e) else r)
                           (table st)\<rparr>
      else st\<lparr>table := table st @ [persisted st (own e)]\<rparr>)"

text \<open>\<^verbatim>\<open>softRemove\<close>: stamp the delete-date column of the entity's row.\<close>

definition typeorm_softRemove :: "store \<Rightarrow> int \<Rightarrow> obj \<Rightarrow> store" where
  "typeorm_softRemove st now e =
     (case deleteDateColumn st of
        None \<Rightarrow> st
      | Some c \<Rightarrow>
          st\<lparr>table := map (\<lambda>r. if row_id r = row_id (own e) then set_prop r c (Num now) else r)
                          (table st)\<rparr>)"

text \<open>\<^verbatim>\<open>remove\<close>: delete the entity's row.\<close>

definition typeorm_remove :: "store \<Rightarrow> obj \<Rightarrow> store" where
  "typeorm_remove st e = st\<lparr>table := filter (\<lambda>r. row_id r \<noteq> row_id (own e)) (table st)\<rparr>"

section \<open>SimpleEntityRepository\<close>

text \<open>
  The methods of \<^verbatim>\<open>simple-entity.repository.ts\<close>.  The optional \<^verbatim>\<open>manager\<close> only
  selects the transaction the same table is reached through, so the model has one store.
  \<^verbatim>\<open>auditContext\<close> is received and, as in the source, never read.
\<close>

definition findOne :: "FindOneOptions \<Rightarrow> store \<Rightarrow> obj option" where
  "findOne query st = typeorm_findOne st query"

record page =
  limit :: nat
  total_count :: nat
  rows :: "obj list"

definition find_page :: "FindOptions \<Rightarrow> store \<Rightarrow> page" where
  "find_page query st =
     (let limit = 50;
          results = typeorm_findAndCount st query limit
      in \<lparr>limit = limit, total_count = snd results, rows = fst results\<rparr>)"

text \<open>
  \<^verbatim>\<open>create\<close>; \<open>uuid\<close> is what \<^verbatim>\<open>generateUniqueUUID()\<close> returns for this call (the
  generator, \<^verbatim>\<open>utils/generate-unique-uuid\<close>, is missing from the sources).  The entity
  returned is the object that was handed to \<^verbatim>\<open>repository.save\<close>, as that call left it.
\<close>

definition create :: "props \<Rightarrow> 'ctx \<Rightarrow> string \<Rightarrow> store \<Rightarrow> obj \<times> store" where
  "create entityLikeObject auditContext uuid st =
     (let entityLikeObject' = set_prop entityLikeObject ''id'' (Str uuid);
          entity = assign (new (target st)) entityLikeObject'
      in (typeorm_saved st entity, typeorm_save st entity))"

definition save :: "obj \<Rightarrow> 'ctx \<Rightarrow> store \<Rightarrow> unit outcome \<times> store" where
  "save entity auditContext st =
     (if \<not> instanceof entity (target st) then (Thrown, st)
      else (Returned (), typeorm_save st entity))"

definition remove :: "obj \<Rightarrow> 'ctx \<Rightarrow> int \<Rightarrow> store \<Rightarrow> unit outcome \<times> store" where
  "remove entity auditContext now st =
     (if \<not> instanceof entity (target st) then (Thrown, st)
      else if deleteDateColumn st \<noteq> None then (Returned (), typeorm_softRemove st now entity)
      else (Returned (), typeorm_remove st entity))"

section \<open>The account service\<close>

subsection \<open>Accounts, verification tokens and the mail collaborator\<close>

text \<open>
  Modelled from the spec: the \<^verbatim>\<open>Role\<close> enumeration (\<^verbatim>\<open>auth/roles/roles\<close>) is missing
  from the sources; the spec names the end-user role and leaves the others open.
\<close>

datatype Role = EndUser | OtherRole nat

text \<open>
  Modelled from the spec: the \<^verbatim>\<open>User\<close> entity (\<^verbatim>\<open>typeorm/user.entity\<close>) is missing
  from the sources; the spec gives it an identifier, a unique email, password hash,
  password salt, verification flag and role.  The source's cast to
  \<^verbatim>\<open>NonNullableFields\<close> takes hash and salt as present.
\<close>

record User =
  user_id :: string
  email :: string
  passwordHash :: string
  passwordSalt :: string
  isVerified :: bool
  role :: Role

text \<open>
  Modelled from the spec: the \<^verbatim>\<open>SignupVerificationToken\<close> entity is missing from the
  sources; the spec gives it an identifier, an owning account and an expiry.  The owner
  is stored as the account's identifier; the time is a count of clock ticks.
\<close>

record SignupVerificationToken =
  token_id :: string
  token_user :: string
  expires :: nat

record mail =
  mail_to :: string
  mail_body :: string

text \<open>
  What one transaction of the service sees and changes: the two tables, and the
  messages handed to \<^verbatim>\<open>EmailService.sendEmail\<close>.
\<close>

record state =
  users :: "User list"
  tokens :: "SignupVerificationToken list"
  outbox :: "mail list"

text \<open>
  The three results \<^verbatim>\<open>signup\<close> returns (the enumeration itself is declared in
  \<^verbatim>\<open>users.dto\<close>), and the two of \<^verbatim>\<open>verifyUser\<close> and
  \<^verbatim>\<open>resendSignupVerificationToken\<close>, \<^verbatim>\<open>'ok'\<close> and \<^verbatim>\<open>'not-found'\<close>.
\<close>

datatype SignupResult = Created | AlreadyCreated | AwaitingVerification

datatype VerifyResult = Ok | NotFound

text \<open>
  \<^verbatim>\<open>select: ['passwordHash', 'passwordSalt']\<close>: the loaded account carries these two
  columns and nothing else.
\<close>

record SelectedUser =
  sel_passwordHash :: string
  sel_passwordSalt :: string

datatype CredentialsResult = Match SelectedUser | DontMatch

text \<open>
  Modelled from the spec: the request type \<^verbatim>\<open>UserSignupRequestDTO\<close> (\<^verbatim>\<open>users.dto\<close>) is
  missing from the sources; \<^verbatim>\<open>signup\<close> reads its \<^verbatim>\<open>email\<close> and \<^verbatim>\<open>password\<close>.  Below it,
  the same data once \<^verbatim>\<open>PartialFields\<close> has made the password optional, and the payload
  that \<^verbatim>\<open>create\<close> receives.
\<close>

record UserSignupRequestDTO =
  dto_email :: string
  dto_password :: string

record PartialSignupData =
  p_email :: string
  p_password :: "string option"

record UserCreation = PartialSignupData +
  c_passwordHash :: string
  c_passwordSalt :: string
  c_role :: Role

subsection \<open>The two repositories\<close>

text \<open>
  Modelled from the spec: \<^verbatim>\<open>UsersRepository\<close> is missing from the sources.  Its
  \<^verbatim>\<open>findOne\<close> is the entity store's: the first row that satisfies the where-object.
\<close>

definition findOneUser :: "(User \<Rightarrow> bool) \<Rightarrow> state \<Rightarrow> User option" where
  "findOneUser P s = find P (users s)"

text \<open>The upsert by identifier that \<^verbatim>\<open>save\<close> and \<^verbatim>\<open>create\<close> end in.\<close>

definition upsert_user :: "User \<Rightarrow> User list \<Rightarrow> User list" where
  "upsert_user u us =
     (if list_ex (\<lambda>x. user_id x = user_id u) us
      then map (\<lambda>x. if user_id x = user_id u then u else x) us
      else us @ [u])"

text \<open>
  Modelled from the spec: \<^verbatim>\<open>UsersRepository.save\<close> persists the entity's current field
  values, a full upsert by identifier.
\<close>

definition saveUser :: "'ctx \<Rightarrow> User \<Rightarrow> state \<Rightarrow> state" where
  "saveUser auditContext u s = s\<lparr>users := upsert_user u (users s)\<rparr>"

text \<open>
  Modelled from the spec: \<^verbatim>\<open>UsersRepository.create\<close> gives the new account the generated
  identifier \<open>uuid\<close> and the payload's columns, leaves the verification flag at its
  default \<open>False\<close>, persists the account and returns it.  A plaintext password is not a
  column of the account.
\<close>

definition createUser :: "'ctx \<Rightarrow> UserCreation \<Rightarrow> string \<Rightarrow> state \<Rightarrow> User \<times> state" where
  "createUser auditContext payload uuid s =
     (let user = \<lparr>user_id = uuid, email = p_email payload,
                    passwordHash = c_passwordHash payload,
                    passwordSalt = c_passwordSalt payload,
                    isVerified = False, role = c_role payload\<rparr>
      in (user, s\<lparr>users := upsert_user user (users s)\<rparr>))"

text \<open>
  Modelled from the spec: \<^verbatim>\<open>SignupVerificationTokensRepository\<close> is missing from the
  sources.  \<^verbatim>\<open>findTokenById\<close> looks the token up by id and joins it to its owning
  account.  A token whose account is not in the table is not found; the integrity
  constraint \<open>tokens_owned\<close> below excludes it.
\<close>

definition findTokenById :: "string \<Rightarrow> state \<Rightarrow> (SignupVerificationToken \<times> User) option" where
  "findTokenById tokenId s =
     (case find (\<lambda>t. token_id t = tokenId) (tokens s) of
        None \<Rightarrow> None
      | Some t \<Rightarrow>
          (case find (\<lambda>u. user_id u = token_user t) (users s) of
             None \<Rightarrow> None
           | Some u \<Rightarrow> Some (t, u)))"

text \<open>
  Modelled from the spec: a token is live until its expiry; \<^verbatim>\<open>findTokenByUser\<close> returns
  a live token of the account, if it has one.
\<close>

definition live :: "nat \<Rightarrow> SignupVerificationToken \<Rightarrow> bool" where
  "live now t = (now < expires t)"

definition findTokenByUser :: "nat \<Rightarrow> User \<Rightarrow> state \<Rightarrow> SignupVerificationToken option" where
  "findTokenByUser now u s = find (\<lambda>t. token_user t = user_id u \<and> live now t) (tokens s)"

text \<open>Modelled from the spec: \<^verbatim>\<open>deleteFromUser\<close> deletes every token of the account.\<close>

definition deleteFromUser :: "User \<Rightarrow> state \<Rightarrow> state" where
  "deleteFromUser u s = s\<lparr>tokens := filter (\<lambda>t. token_user t \<noteq> user_id u) (tokens s)\<rparr>"

definition upsert_token :: "SignupVerificationToken \<Rightarrow> SignupVerificationToken list \<Rightarrow> SignupVerificationToken list" where
  "upsert_token t ts =
     (if list_ex (\<lambda>x. token_id x = token_id t) ts
      then map (\<lambda>x. if token_id x = token_id t then t else x) ts
      else ts @ [t])"

text \<open>
  Modelled from the spec: \<^verbatim>\<open>createToken\<close> creates a token of the account that expires
  \<open>ttl\<close> ticks from now; \<open>uuid\<close> is its generated identifier.
\<close>

definition createToken :: "User \<Rightarrow> nat \<Rightarrow> string \<Rightarrow> nat \<Rightarrow> state \<Rightarrow> SignupVerificationToken \<times> state" where
  "createToken u ttl uuid now s =
     (let t = \<lparr>token_id = uuid, token_user = user_id u, expires = now + ttl\<rparr>
      in (t, s\<lparr>tokens := upsert_token t (tokens s)\<rparr>))"

subsection \<open>UsersService\<close>

text \<open>
  The methods of the service, in the order of the source.  Each of \<^verbatim>\<open>verifyUser\<close>,
  \<^verbatim>\<open>resendSignupVerificationToken\<close> and \<^verbatim>\<open>signup\<close> runs in one transaction, which is the
  state it receives and the state it returns.  What the source draws from outside is a
  parameter: \<open>hash\<close> is \<^verbatim>\<open>bcrypt.hash\<close>, \<open>salt\<close> the value of \<^verbatim>\<open>bcrypt.genSalt()\<close>,
  \<open>userUuid\<close> and \<open>tokenUuid\<close> the identifiers generated for the new rows, \<open>now\<close>
  the clock and \<open>ttl\<close> the constant \<^verbatim>\<open>USERS_SIGNUP_VERIFICATION_TTL\<close>.
\<close>

definition select_credentials :: "User \<Rightarrow> SelectedUser" where
  "select_credentials u =
     \<lparr>sel_passwordHash = passwordHash u, sel_passwordSalt = passwordSalt u\<rparr>"

definition doCredentialsMatch :: "(string \<Rightarrow> string \<Rightarrow> string) \<Rightarrow> string \<Rightarrow> string \<Rightarrow> state \<Rightarrow> CredentialsResult" where
  "doCredentialsMatch hash email' password s =
     (case map_option select_credentials
             (findOneUser (\<lambda>u. email u = email' \<and> isVerified u = True) s) of
        None \<Rightarrow> DontMatch
      | Some user \<Rightarrow>
          (let incomingPasswordHash = hash password (sel_passwordSalt user)
           in if incomingPasswordHash = sel_passwordHash user then Match user else DontMatch))"

definition verifyUser :: "'ctx \<Rightarrow> string \<Rightarrow> state \<Rightarrow> VerifyResult \<times> state" where
  "verifyUser auditContext tokenId s =
     (case findTokenById tokenId s of
        None \<Rightarrow> (NotFound, s)
      | Some (token, user) \<Rightarrow>
          (let user' = user\<lparr>isVerified := True\<rparr>;
               s1 = saveUser auditContext user' s;
               s2 = deleteFromUser user' s1
           in (Ok, s2)))"

definition verification_body :: "string \<Rightarrow> string" where
  \<open>verification_body verificationLink =
     [CHR 0x0A] @ ''<p>Click or copy this link to verify your newly created account: <a href="''
       @ verificationLink @ ''" target="_blank">'' @ verificationLink @ ''</a></p>'' @ [CHR 0x0A]\<close>

definition sendVerificationLinkEmail :: "string \<Rightarrow> string \<Rightarrow> state \<Rightarrow> state" where
  "sendVerificationLinkEmail to verificationLink s =
     s\<lparr>outbox := outbox s @ [\<lparr>mail_to = to, mail_body = verification_body verificationLink\<rparr>]\<rparr>"

definition verify_link :: "string \<Rightarrow> string \<Rightarrow> string" where
  "verify_link hostname tokenId = hostname @ ''/verify/'' @ tokenId"

definition resendSignupVerificationToken :: "nat \<Rightarrow> nat \<Rightarrow> string \<Rightarrow> string \<Rightarrow> string \<Rightarrow> state \<Rightarrow> VerifyResult \<times> state" where
  "resendSignupVerificationToken now ttl tokenUuid email' hostname s =
     (case findOneUser (\<lambda>u. email u = email') s of
        None \<Rightarrow> (NotFound, s)
      | Some user \<Rightarrow>
          (case findTokenByUser now user s of
             None \<Rightarrow>
               (let s1 = deleteFromUser user s;
                    (newToken, s2) = createToken user ttl tokenUuid now s1;
                    verificationLink = verify_link hostname (token_id newToken)
                in (Ok, sendVerificationLinkEmail (email user) verificationLink s2))
           | Some token \<Rightarrow>
               (let verificationLink = verify_link hostname (token_id token)
                in (Ok, sendVerificationLinkEmail (email user) verificationLink s))))"

text \<open>
  The payload \<^verbatim>\<open>signup\<close> hands to \<^verbatim>\<open>create\<close>: the request copied, its \<^verbatim>\<open>password\<close>
  deleted, then hash, salt and role added.
\<close>

definition signup_payload :: "UserSignupRequestDTO \<Rightarrow> string \<Rightarrow> string \<Rightarrow> UserCreation" where
  "signup_payload data passwordHash' passwordSalt' =
     (let copy = \<lparr>p_email = dto_email data, p_password = Some (dto_password data)\<rparr>;
          dataWithoutPassword = copy\<lparr>p_password := None\<rparr>
      in \<lparr>p_email = p_email dataWithoutPassword, p_password = p_password dataWithoutPassword,
          c_passwordHash = passwordHash', c_passwordSalt = passwordSalt', c_role = EndUser\<rparr>)"

definition signup :: "(string \<Rightarrow> string \<Rightarrow> string) \<Rightarrow> string \<Rightarrow> string \<Rightarrow> string \<Rightarrow> nat \<Rightarrow> nat \<Rightarrow> 'ctx \<Rightarrow> UserSignupRequestDTO \<Rightarrow> string \<Rightarrow> state \<Rightarrow> SignupResult \<times> state" where
  "signup hash salt userUuid tokenUuid now ttl auditContext data hostname s =
     (case findOneUser (\<lambda>u. email u = dto_email data) s of
        Some doesExist \<Rightarrow>
          (if isVerified doesExist then (AlreadyCreated, s) else (AwaitingVerification, s))
      | None \<Rightarrow>
          (let passwordSalt' = salt;
               passwordHash' = hash (dto_password data) passwordSalt';
               (user, s1) = createUser auditContext
                              (signup_payload data passwordHash' passwordSalt') userUuid s;
               (newToken, s2) = createToken user ttl tokenUuid now s1
           in (Created,
               sendVerificationLinkEmail (email user)
                 (verify_link hostname (token_id newToken)) s2)))"

subsection \<open>Integrity of the tables\<close>

text \<open>
  The constraints the relational schema keeps and the service relies on: the primary
  keys of both tables, the unique email of an account (spec, data model), and the
  reference from a token to its owning account.
\<close>

definition unique_emails :: "state \<Rightarrow> bool" where
  "unique_emails s = distinct (map email (users s))"

definition unique_user_ids :: "state \<Rightarrow> bool" where
  "unique_user_ids s = distinct (map user_id (users s))"

definition unique_token_ids :: "state \<Rightarrow> bool" where
  "unique_token_ids s = distinct (map token_id (tokens s))"

definition tokens_owned :: "state \<Rightarrow> bool" where
  "tokens_owned s =
     list_all (\<lambda>t. list_ex (\<lambda>u. user_id u = token_user t) (users s)) (tokens s)"

definition integrity :: "state \<Rightarrow> bool" where
  "integrity s =
     (unique_emails s \<and> unique_user_ids s \<and> unique_token_ids s \<and> tokens_owned s)"

text \<open>
  The three ways a login fails, as the spec lists them: a verified account of that email
  whose password is another one, an unverified account of that email with the right
  password, and no account of that email.
\<close>

definition wrong_password :: "(string \<Rightarrow> string \<Rightarrow> string) \<Rightarrow> string \<Rightarrow> string \<Rightarrow> state \<Rightarrow> bool" where
  "wrong_password hash e pw s =
     list_ex (\<lambda>u. email u = e \<and> isVerified u \<and> hash pw (passwordSalt u) \<noteq> passwordHash u) (users s)"

definition unverified_account :: "(string \<Rightarrow> string \<Rightarrow> string) \<Rightarrow> string \<Rightarrow> string \<Rightarrow> state \<Rightarrow> bool" where
  "unverified_account hash e pw s =
     list_ex (\<lambda>u. email u = e \<and> \<not> isVerified u \<and> hash pw (passwordSalt u) = passwordHash u) (users s)"

definition unknown_email :: "string \<Rightarrow> state \<Rightarrow> bool" where
  "unknown_email e s = (\<not> list_ex (\<lambda>u. email u = e) (users s))"

definition login_fails :: "(string \<Rightarrow> string \<Rightarrow> string) \<Rightarrow> string \<Rightarrow> string \<Rightarrow> state \<Rightarrow> bool" where
  "login_fails hash e pw s =
     (wrong_password hash e pw s \<or> unverified_account hash e pw s \<or> unknown_email e s)"

subsection \<open>Example accounts\<close>

definition toy_hash :: "string \<Rightarrow> string \<Rightarrow> string" where
  "toy_hash password salt = salt @ ''$'' @ rev password"

definition alice :: User where
  "alice = \<lparr>user_id = ''u1'', email = ''alice@example.org'',
            passwordHash = ''s1$terces'', passwordSalt = ''s1'',
            isVerified = True, role = EndUser\<rparr>"

definition bob :: User where
  "bob = \<lparr>user_id = ''u2'', email = ''bob@example.org'',
          passwordHash = ''s2$drowssap'', passwordSalt = ''s2'',
          isVerified = False, role = EndUser\<rparr>"

definition stale_token :: SignupVerificationToken where
  "stale_token = \<lparr>token_id = ''t0'', token_user = ''u2'', expires = 5\<rparr>"

definition live_token :: SignupVerificationToken where
  "live_token = \<lparr>token_id = ''t1'', token_user = ''u2'', expires = 100\<rparr>"

definition demo_state :: state where
  "demo_state = \<lparr>users = [alice, bob], tokens = [stale_token, live_token], outbox = []\<rparr>"




subsection \<open>Example stores\<close>

definition demo_class :: js_class where
  "demo_class = \<lparr>cname = ''Note'', cancestors = [''SimpleEntity''], cfields = []\<rparr>"

definition other_class :: js_class where
  "other_class = \<lparr>cname = ''Tag'', cancestors = [''SimpleEntity''], cfields = []\<rparr>"

definition demo_row :: props where
  "demo_row = [(''id'', Str ''n1''), (''title'', Str ''hello'')]"

definition hard_store :: store where
  "hard_store = \<lparr>target = demo_class, deleteDateColumn = None, nullableColumns = [],
     returning = (\<lambda>r. []), table = [demo_row]\<rparr>"

definition soft_store :: store where
  "soft_store = \<lparr>target = demo_class, deleteDateColumn = Some ''deletedAt'',
     nullableColumns = [], returning = (\<lambda>r. []), table = [demo_row]\<rparr>"

definition big_store :: store where
  "big_store = \<lparr>target = demo_class, deleteDateColumn = None, nullableColumns = [],
     returning = (\<lambda>r. []), table = replicate 51 demo_row\<rparr>"

definition all_rows :: FindOptions where
  "all_rows = \<lparr>withDeleted = None, order = None, whereMany = None, skip = 0\<rparr>"

definition demo_entity :: obj where
  "demo_entity = materialize hard_store demo_row"

definition foreign_entity :: obj where
  "foreign_entity = assign (new other_class) demo_row"


section \<open>Properties of the entity store\<close>

lemma get_prop_set_prop: "get_prop (set_prop ps k v) k' = (if k' = k then v else get_prop ps k')"
  by (simp add: get_prop_def set_prop_def update_conv')





lemma length_matching:
  "length (matching st wd ord P) = length (filter (\<lambda>r. visible st wd r \<and> P r) (table st))"
  by (simp add: matching_def ordered_def split: option.split)

lemma set_matching:
  "set (matching st wd ord P) = {r \<in> set (table st). visible st wd r \<and> P r}"
  by (auto simp add: matching_def ordered_def split: option.split)

lemma matching_Nil_iff:
  "(matching st wd ord P = []) = (\<forall>r\<in>set (table st). \<not> (visible st wd r \<and> P r))"
proof -
  have "(matching st wd ord P = []) = (set (matching st wd ord P) = {})" by simp
  then show ?thesis unfolding set_matching by blast
qed

lemma findOne_None_iff:
  "(findOne q st = None) = (matching st (withDeleted q) (order q) (whereOne q) = [])"
  by (simp add: findOne_def typeorm_findOne_def split: list.split)

lemma find_page_total:
  "total_count (find_page q st) =
     length (matching st (withDeleted q) (order q)
       (case whereMany q of None \<Rightarrow> (\<lambda>r. True) | Some P \<Rightarrow> P))"
  by (simp add: find_page_def typeorm_findAndCount_def Let_def)

lemma find_page_rows:
  "rows (find_page q st) =
     map (materialize st) (take 50 (drop (skip q)
       (matching st (withDeleted q) (order q)
          (case whereMany q of None \<Rightarrow> (\<lambda>r. True) | Some P \<Rightarrow> P))))"
  by (simp add: find_page_def typeorm_findAndCount_def Let_def)

subsection \<open>Pagination\<close>

text \<open>
  Claim C7.  Whatever the query, and however many rows it matches, the page \<^verbatim>\<open>find\<close>
  returns holds at most 50 rows, its \<^verbatim>\<open>limit\<close> field is the constant 50, and its
  \<^verbatim>\<open>total\<close> is the number of all rows the query matches (the rows the query may see
  that satisfy its where-clause), whatever the cap and the \<^verbatim>\<open>skip\<close> offset are.
\<close>

theorem find_page_cap:
  "length (rows (find_page q st)) \<le> 50 \<and>
   limit (find_page q st) = 50 \<and>
   total_count (find_page q st) =
     length (filter (\<lambda>r. visible st (withDeleted q) r \<and>
               (case whereMany q of None \<Rightarrow> True | Some P \<Rightarrow> P r)) (table st))"
proof (intro conjI)
  show "length (rows (find_page q st)) \<le> 50"
    by (simp add: find_page_rows)
  show "limit (find_page q st) = 50"
    by (simp add: find_page_def Let_def)
  show "total_count (find_page q st) =
     length (filter (\<lambda>r. visible st (withDeleted q) r \<and>
               (case whereMany q of None \<Rightarrow> True | Some P \<Rightarrow> P r)) (table st))"
    by (cases "whereMany q") (simp_all add: find_page_total length_matching)
qed

text \<open>A table of 51 rows, all matched: the page has 50 of them and the total is 51.\<close>

theorem find_page_cap_witness:
  "length (rows (find_page all_rows big_store)) = 50 \<and>
   limit (find_page all_rows big_store) = 50 \<and>
   total_count (find_page all_rows big_store) = 51"
proof -
  have r: "length (rows (find_page all_rows big_store)) = 50"
    by (simp add: find_page_rows all_rows_def big_store_def matching_def ordered_def
        visible_def is_deleted_def)
  have v: "filter (\<lambda>r. visible big_store (withDeleted all_rows) r \<and>
               (case whereMany all_rows of None \<Rightarrow> True | Some P \<Rightarrow> P r)) (table big_store)
           = table big_store"
    by (simp add: all_rows_def big_store_def visible_def is_deleted_def)
  have t: "length (table big_store) = 51"
    by (simp add: big_store_def)
  show ?thesis
    using find_page_cap [of all_rows big_store] r v t by simp
qed

subsection \<open>The instance check of save and remove\<close>

text \<open>
  Claim C8.  For an entity that is not an instance of the store's entity class, \<^verbatim>\<open>save\<close>
  and \<^verbatim>\<open>remove\<close> both throw and the store is as it was: no persistence operation has
  run.  For an entity that is an instance, the check passes and the operation proceeds:
  \<^verbatim>\<open>save\<close> persists the entity, \<^verbatim>\<open>remove\<close> soft-removes or removes it.
\<close>

theorem save_remove_instance_check:
  "(\<not> instanceof e (target st) \<longrightarrow>
      save e ctx st = (Thrown, st) \<and> remove e ctx' now st = (Thrown, st)) \<and>
   (instanceof e (target st) \<longrightarrow>
      save e ctx st = (Returned (), typeorm_save st e) \<and>
      remove e ctx' now st =
        (Returned (),
         if deleteDateColumn st \<noteq> None then typeorm_softRemove st now e
         else typeorm_remove st e))"
  by (simp add: save_def remove_def)

text \<open>
  An instance of another class with the same columns is refused by both methods; an
  instance loaded from the store is saved (its row is unchanged) and removed.
\<close>

theorem save_remove_instance_check_witness:
  "save foreign_entity () hard_store = (Thrown, hard_store) \<and>
   remove foreign_entity () 7 hard_store = (Thrown, hard_store) \<and>
   save demo_entity () hard_store = (Returned (), hard_store) \<and>
   remove demo_entity () 7 hard_store = (Returned (), hard_store\<lparr>table := []\<rparr>)"
proof -
  have f: "foreign_entity = \<lparr>proto_chain = [''Tag'', ''SimpleEntity''], own = demo_row\<rparr>"
    by (simp add: foreign_entity_def assign_def assign_prop_def new_def other_class_def
        demo_row_def Object_keys_def set_prop_def get_prop_def)
  have d: "demo_entity = \<lparr>proto_chain = [''Note'', ''SimpleEntity''], own = demo_row\<rparr>"
    by (simp add: demo_entity_def materialize_def assign_def assign_prop_def new_def
        hard_store_def demo_class_def demo_row_def Object_keys_def set_prop_def get_prop_def)
  have nf: "\<not> instanceof foreign_entity (target hard_store)"
    by (simp add: f instanceof_def hard_store_def demo_class_def)
  have nd: "instanceof demo_entity (target hard_store)"
    by (simp add: d instanceof_def hard_store_def demo_class_def)
  have sv: "typeorm_save hard_store demo_entity = hard_store"
    by (simp add: d typeorm_save_def persisted_def nullify_def merge_returned_def
        Object_keys_def hard_store_def)
  have rm: "typeorm_remove hard_store demo_entity = hard_store\<lparr>table := []\<rparr>"
    by (simp add: d typeorm_remove_def hard_store_def)
  have nc: "deleteDateColumn hard_store = None"
    by (simp add: hard_store_def)
  show ?thesis
    using save_remove_instance_check [of foreign_entity hard_store "()" "()" 7]
      save_remove_instance_check [of demo_entity hard_store "()" "()" 7]
      nf nd sv rm nc
    by simp
qed

subsection \<open>Soft and physical removal\<close>

lemma is_deleted_stamped: "is_deleted (Some c) (set_prop r c (Num now))"
  by (simp add: is_deleted_def get_prop_set_prop)

lemma row_id_stamped: "c \<noteq> ''id'' \<Longrightarrow> row_id (set_prop r c v) = row_id r"
  by (simp add: row_id_def get_prop_set_prop)

lemma softRemove_store:
  "deleteDateColumn st = Some c \<Longrightarrow>
   deleteDateColumn (typeorm_softRemove st now e) = Some c \<and>
   table (typeorm_softRemove st now e) =
     map (\<lambda>x. if row_id x = row_id (own e) then set_prop x c (Num now) else x) (table st)"
  by (simp add: typeorm_softRemove_def)

lemma soft_hidden:
  assumes col: "deleteDateColumn st = Some c"
    and wd: "wd \<noteq> Some True"
    and x: "x \<in> set (matching (typeorm_softRemove st now e) wd ord P)"
  shows "row_id x \<noteq> row_id (own e)"
proof
  assume same: "row_id x = row_id (own e)"
  from x have xt: "x \<in> set (table (typeorm_softRemove st now e))"
    and vis: "visible (typeorm_softRemove st now e) wd x"
    by (simp_all add: set_matching)
  from xt obtain y where y: "y \<in> set (table st)"
    and xy: "x = (if row_id y = row_id (own e) then set_prop y c (Num now) else y)"
    using softRemove_store [OF col, of now e] by auto
  have "x = set_prop y c (Num now)"
    using xy same by (cases "row_id y = row_id (own e)") simp_all
  then have "is_deleted (Some c) x"
    by (simp add: is_deleted_stamped)
  then show False
    using vis wd softRemove_store [OF col, of now e] by (simp add: visible_def)
qed

lemma soft_kept:
  assumes col: "deleteDateColumn st = Some c"
    and c: "c \<noteq> ''id''"
    and r: "r \<in> set (table st)" "row_id r = row_id (own e)"
  shows "set_prop r c (Num now) \<in>
           set (matching (typeorm_softRemove st now e) (Some True) ord (by_id (row_id (own e))))"
proof -
  have "set_prop r c (Num now) \<in> set (table (typeorm_softRemove st now e))"
    using r softRemove_store [OF col, of now e] by (auto simp add: image_iff intro!: bexI [of _ r])
  moreover have "by_id (row_id (own e)) (set_prop r c (Num now))"
    using r c by (simp add: by_id_def row_id_stamped)
  ultimately show ?thesis
    by (simp add: set_matching visible_def)
qed

lemma hard_gone:
  "x \<in> set (matching (typeorm_remove st e) wd ord P) \<Longrightarrow> row_id x \<noteq> row_id (own e)"
  by (simp add: set_matching typeorm_remove_def)

lemma matching_empty_by_id:
  assumes "\<And>x. x \<in> set (matching st wd ord (by_id i)) \<Longrightarrow> row_id x \<noteq> i"
  shows "matching st wd ord (by_id i) = []"
proof (rule ccontr)
  assume "matching st wd ord (by_id i) \<noteq> []"
  then obtain x where x: "x \<in> set (matching st wd ord (by_id i))"
    by (cases "matching st wd ord (by_id i)") auto
  then have "by_id i x" by (simp add: set_matching)
  then show False using assms [OF x] by (simp add: by_id_def)
qed

lemma findOne_by_id_None:
  "matching st wd ord (by_id i) = [] \<Longrightarrow>
   findOne \<lparr>withDeleted = wd, order = ord, whereOne = by_id i\<rparr> st = None"
  by (simp add: findOne_None_iff)

lemma find_page_by_id_empty:
  "matching st wd ord (by_id i) = [] \<Longrightarrow>
   rows (find_page \<lparr>withDeleted = wd, order = ord, whereMany = Some (by_id i), skip = k\<rparr> st) = [] \<and>
   total_count (find_page \<lparr>withDeleted = wd, order = ord, whereMany = Some (by_id i), skip = k\<rparr> st) = 0"
  by (simp add: find_page_rows find_page_total)

lemma removal_by_store:
  assumes inst: "instanceof e (target st)"
    and r: "r \<in> set (table st)" "row_id r = row_id (own e)"
  shows
    "(deleteDateColumn st = Some c \<and> c \<noteq> ''id'' \<longrightarrow>
        remove e ctx now st = (Returned (), typeorm_softRemove st now e) \<and>
        table (typeorm_softRemove st now e) =
          map (\<lambda>x. if row_id x = row_id (own e) then set_prop x c (Num now) else x) (table st) \<and>
        findOne \<lparr>withDeleted = Some True, order = ord, whereOne = by_id (row_id (own e))\<rparr>
          (typeorm_softRemove st now e) \<noteq> None \<and>
        0 < total_count (find_page \<lparr>withDeleted = Some True, order = ord,
              whereMany = Some (by_id (row_id (own e))), skip = k\<rparr> (typeorm_softRemove st now e)) \<and>
        (wd \<noteq> Some True \<longrightarrow>
           (\<forall>x\<in>set (matching (typeorm_softRemove st now e) wd ord P). row_id x \<noteq> row_id (own e)) \<and>
           findOne \<lparr>withDeleted = wd, order = ord, whereOne = by_id (row_id (own e))\<rparr>
             (typeorm_softRemove st now e) = None \<and>
           rows (find_page \<lparr>withDeleted = wd, order = ord,
              whereMany = Some (by_id (row_id (own e))), skip = k\<rparr> (typeorm_softRemove st now e)) = [] \<and>
           total_count (find_page \<lparr>withDeleted = wd, order = ord,
              whereMany = Some (by_id (row_id (own e))), skip = k\<rparr> (typeorm_softRemove st now e)) = 0)) \<and>
     (deleteDateColumn st = None \<longrightarrow>
        remove e ctx now st = (Returned (), typeorm_remove st e) \<and>
        table (typeorm_remove st e) = filter (\<lambda>x. row_id x \<noteq> row_id (own e)) (table st) \<and>
        (\<forall>x\<in>set (matching (typeorm_remove st e) wd ord P). row_id x \<noteq> row_id (own e)) \<and>
        findOne \<lparr>withDeleted = wd, order = ord, whereOne = by_id (row_id (own e))\<rparr>
          (typeorm_remove st e) = None \<and>
        rows (find_page \<lparr>withDeleted = wd, order = ord,
           whereMany = Some (by_id (row_id (own e))), skip = k\<rparr> (typeorm_remove st e)) = [] \<and>
        total_count (find_page \<lparr>withDeleted = wd, order = ord,
           whereMany = Some (by_id (row_id (own e))), skip = k\<rparr> (typeorm_remove st e)) = 0)"
proof (intro conjI impI)
  assume a: "deleteDateColumn st = Some c \<and> c \<noteq> ''id''"
  then have col: "deleteDateColumn st = Some c" and c: "c \<noteq> ''id''" by simp_all
  let ?st = "typeorm_softRemove st now e"
  let ?i = "row_id (own e)"
  show "remove e ctx now st = (Returned (), ?st)"
    using inst col by (simp add: remove_def)
  show "table ?st = map (\<lambda>x. if row_id x = ?i then set_prop x c (Num now) else x) (table st)"
    using softRemove_store [OF col] by simp
  have kept: "matching ?st (Some True) ord (by_id ?i) \<noteq> []"
    using soft_kept [OF col c r, of now ord] by auto
  show "findOne \<lparr>withDeleted = Some True, order = ord, whereOne = by_id ?i\<rparr> ?st \<noteq> None"
    using kept by (simp add: findOne_None_iff)
  show "0 < total_count (find_page \<lparr>withDeleted = Some True, order = ord,
              whereMany = Some (by_id ?i), skip = k\<rparr> ?st)"
    using kept by (simp add: find_page_total)
  {
    assume wd: "wd \<noteq> Some True"
    show "\<forall>x\<in>set (matching ?st wd ord P). row_id x \<noteq> ?i"
      using soft_hidden [OF col wd] by blast
    have e: "matching ?st wd ord (by_id ?i) = []"
      using soft_hidden [OF col wd] by (intro matching_empty_by_id) blast
    show "findOne \<lparr>withDeleted = wd, order = ord, whereOne = by_id ?i\<rparr> ?st = None"
      using e by (rule findOne_by_id_None)
    show "rows (find_page \<lparr>withDeleted = wd, order = ord,
              whereMany = Some (by_id ?i), skip = k\<rparr> ?st) = []"
      using find_page_by_id_empty [OF e] by simp
    show "total_count (find_page \<lparr>withDeleted = wd, order = ord,
              whereMany = Some (by_id ?i), skip = k\<rparr> ?st) = 0"
      using find_page_by_id_empty [OF e] by simp
  }
next
  assume col: "deleteDateColumn st = None"
  let ?st = "typeorm_remove st e"
  let ?i = "row_id (own e)"
  show "remove e ctx now st = (Returned (), ?st)"
    using inst col by (simp add: remove_def)
  show "table ?st = filter (\<lambda>x. row_id x \<noteq> ?i) (table st)"
    by (simp add: typeorm_remove_def)
  show "\<forall>x\<in>set (matching ?st wd ord P). row_id x \<noteq> ?i"
    using hard_gone by blast
  have e: "matching ?st wd ord (by_id ?i) = []"
    using hard_gone by (intro matching_empty_by_id) blast
  show "findOne \<lparr>withDeleted = wd, order = ord, whereOne = by_id ?i\<rparr> ?st = None"
    using e by (rule findOne_by_id_None)
  show "rows (find_page \<lparr>withDeleted = wd, order = ord,
           whereMany = Some (by_id ?i), skip = k\<rparr> ?st) = []"
    using find_page_by_id_empty [OF e] by simp
  show "total_count (find_page \<lparr>withDeleted = wd, order = ord,
           whereMany = Some (by_id ?i), skip = k\<rparr> ?st) = 0"
    using find_page_by_id_empty [OF e] by simp
qed

text \<open>
  Claim C9.  Let \<open>e\<close> be an instance of the store's class whose row is in the table.
  If the schema declares a delete-date column \<open>c\<close> (not the id column), \<^verbatim>\<open>remove\<close> returns and
  stamps \<open>c\<close> on the row: a later \<^verbatim>\<open>findOne\<close> or \<^verbatim>\<open>find\<close> for the entity's id finds
  the row when it asks for deleted rows (\<^verbatim>\<open>withDeleted: true\<close>), and otherwise no query,
  whatever its where-clause and order, matches a row with that id.  If the schema
  declares no such column, \<^verbatim>\<open>remove\<close> deletes the row, and then no query matches a row
  with that id under any option.
\<close>

theorem remove_soft_or_hard:
  assumes inst: "instanceof e (target st)"
    and r: "r \<in> set (table st)" "row_id r = row_id (own e)"
  shows
    "(deleteDateColumn st = Some c \<and> c \<noteq> ''id'' \<longrightarrow>
        fst (remove e ctx now st) = Returned () \<and>
        table (snd (remove e ctx now st)) =
          map (\<lambda>x. if row_id x = row_id (own e) then set_prop x c (Num now) else x) (table st) \<and>
        findOne \<lparr>withDeleted = Some True, order = ord, whereOne = by_id (row_id (own e))\<rparr>
          (snd (remove e ctx now st)) \<noteq> None \<and>
        0 < total_count (find_page \<lparr>withDeleted = Some True, order = ord,
              whereMany = Some (by_id (row_id (own e))), skip = k\<rparr> (snd (remove e ctx now st))) \<and>
        (wd \<noteq> Some True \<longrightarrow>
           (\<forall>x\<in>set (matching (snd (remove e ctx now st)) wd ord P). row_id x \<noteq> row_id (own e)) \<and>
           findOne \<lparr>withDeleted = wd, order = ord, whereOne = by_id (row_id (own e))\<rparr>
             (snd (remove e ctx now st)) = None \<and>
           rows (find_page \<lparr>withDeleted = wd, order = ord,
              whereMany = Some (by_id (row_id (own e))), skip = k\<rparr> (snd (remove e ctx now st))) = [] \<and>
           total_count (find_page \<lparr>withDeleted = wd, order = ord,
              whereMany = Some (by_id (row_id (own e))), skip = k\<rparr> (snd (remove e ctx now st))) = 0)) \<and>
     (deleteDateColumn st = None \<longrightarrow>
        fst (remove e ctx now st) = Returned () \<and>
        table (snd (remove e ctx now st)) = filter (\<lambda>x. row_id x \<noteq> row_id (own e)) (table st) \<and>
        (\<forall>x\<in>set (matching (snd (remove e ctx now st)) wd ord P). row_id x \<noteq> row_id (own e)) \<and>
        findOne \<lparr>withDeleted = wd, order = ord, whereOne = by_id (row_id (own e))\<rparr>
          (snd (remove e ctx now st)) = None \<and>
        rows (find_page \<lparr>withDeleted = wd, order = ord,
           whereMany = Some (by_id (row_id (own e))), skip = k\<rparr> (snd (remove e ctx now st))) = [] \<and>
        total_count (find_page \<lparr>withDeleted = wd, order = ord,
           whereMany = Some (by_id (row_id (own e))), skip = k\<rparr> (snd (remove e ctx now st))) = 0)"
proof (cases "deleteDateColumn st")
  case None
  then have rm: "remove e ctx now st = (Returned (), typeorm_remove st e)"
    using inst by (simp add: remove_def)
  show ?thesis
    using removal_by_store [OF inst r, of c ctx now ord k wd P] None
    unfolding rm by simp
next
  case (Some c')
  then have rm: "remove e ctx now st = (Returned (), typeorm_softRemove st now e)"
    using inst by (simp add: remove_def)
  show ?thesis
    using removal_by_store [OF inst r, of c ctx now ord k wd P] Some
    unfolding rm by simp
qed

text \<open>
  The same entity removed from a store with a delete-date column and from one without:
  after the soft delete its row is found only with \<^verbatim>\<open>withDeleted\<close>, after the physical
  delete it is not found even so.
\<close>

theorem remove_soft_or_hard_witness:
  "findOne \<lparr>withDeleted = Some True, order = None, whereOne = by_id (Str ''n1'')\<rparr>
     (snd (remove demo_entity () 7 soft_store)) \<noteq> None \<and>
   findOne \<lparr>withDeleted = None, order = None, whereOne = by_id (Str ''n1'')\<rparr>
     (snd (remove demo_entity () 7 soft_store)) = None \<and>
   findOne \<lparr>withDeleted = Some False, order = None, whereOne = by_id (Str ''n1'')\<rparr>
     (snd (remove demo_entity () 7 soft_store)) = None \<and>
   findOne \<lparr>withDeleted = Some True, order = None, whereOne = by_id (Str ''n1'')\<rparr>
     (snd (remove demo_entity () 7 hard_store)) = None"
proof -
  have d: "demo_entity = \<lparr>proto_chain = [''Note'', ''SimpleEntity''], own = demo_row\<rparr>"
    by (simp add: demo_entity_def materialize_def assign_def assign_prop_def new_def
        hard_store_def demo_class_def demo_row_def Object_keys_def set_prop_def get_prop_def)
  have i: "row_id (own demo_entity) = Str ''n1''"
    by (simp add: d row_id_def get_prop_def demo_row_def)
  have ri: "row_id demo_row = row_id (own demo_entity)"
    by (simp add: d)
  have s1: "instanceof demo_entity (target soft_store)"
    by (simp add: d instanceof_def soft_store_def demo_class_def)
  have s2: "demo_row \<in> set (table soft_store)"
    by (simp add: soft_store_def)
  have s3: "deleteDateColumn soft_store = Some ''deletedAt'' \<and> ''deletedAt'' \<noteq> ''id''"
    by (simp add: soft_store_def)
  have h1: "instanceof demo_entity (target hard_store)"
    by (simp add: d instanceof_def hard_store_def demo_class_def)
  have h2: "demo_row \<in> set (table hard_store)"
    by (simp add: hard_store_def)
  have h3: "deleteDateColumn hard_store = None"
    by (simp add: hard_store_def)
  show ?thesis
    using remove_soft_or_hard [OF s1 s2 ri, of "''deletedAt''" "()" 7 None 0 None "\<lambda>x. True"]
      remove_soft_or_hard [OF s1 s2 ri, of "''deletedAt''" "()" 7 None 0 "Some False" "\<lambda>x. True"]
      remove_soft_or_hard [OF h1 h2 ri, of "''deletedAt''" "()" 7 None 0 "Some True" "\<lambda>x. True"]
      s3 h3 i
    by simp
qed

subsection \<open>Creation\<close>











text \<open>
  A payload key \<^verbatim>\<open>__proto__\<close> is outside the statement above: it gives no own property,
  and with the value \<^verbatim>\<open>null\<close> the returned entity is no instance of the store's class.
\<close>

lemma create_proto_key:
  "get_prop (own (fst (create [(''__proto__'', Null)] () ''u-1'' hard_store))) ''__proto__''
     = Undefined \<and>
   \<not> instanceof (fst (create [(''__proto__'', Null)] () ''u-1'' hard_store)) (target hard_store)"
  by (simp add: create_def Let_def assign_def assign_prop_def new_def hard_store_def
      demo_class_def Object_keys_def set_prop_def get_prop_def instanceof_def
      typeorm_saved_def persisted_def nullify_def merge_returned_def)

section \<open>Properties of the account service\<close>

subsection \<open>Lookups in a table with a key\<close>

lemma find_None_iff_ex: "(find P xs = None) = (\<not> list_ex P xs)"
  by (induction xs) simp_all

lemma find_in_set: "find P xs = Some x \<Longrightarrow> x \<in> set xs \<and> P x"
  by (induction xs) (auto split: if_splits)

lemma find_by_key:
  "distinct (map f xs) \<Longrightarrow> u \<in> set xs \<Longrightarrow> P u \<Longrightarrow> (\<And>x. P x \<Longrightarrow> f x = f u) \<Longrightarrow> find P xs = Some u"
proof (induction xs)
  case Nil
  then show ?case by simp
next
  case (Cons a xs)
  show ?case
  proof (cases "P a")
    case True
    then have "f a = f u" using Cons.prems(4) by blast
    then have "a = u" using Cons.prems(1,2) by (auto simp: image_iff)
    then show ?thesis using True by simp
  next
    case False
    then have u: "u \<in> set xs" using Cons.prems(2,3) by auto
    have d: "distinct (map f xs)" using Cons.prems(1) by simp
    have "find P xs = Some u" using Cons.IH[OF d u Cons.prems(3)] Cons.prems(4) by blast
    then show ?thesis using False by simp
  qed
qed

lemma same_key_same_row:
  "distinct (map f xs) \<Longrightarrow> x \<in> set xs \<Longrightarrow> y \<in> set xs \<Longrightarrow> f x = f y \<Longrightarrow> x = y"
  by (meson distinct_map inj_onD)

lemma findOneUser_by_email:
  assumes "unique_emails s" "u \<in> set (users s)"
  shows "findOneUser (\<lambda>x. email x = email u) s = Some u"
  using assms unfolding unique_emails_def findOneUser_def
  by (intro find_by_key [where f = email]) auto

lemma findOneUser_unknown:
  "\<not> list_ex (\<lambda>x. email x = e) (users s) \<Longrightarrow> findOneUser (\<lambda>x. email x = e) s = None"
  by (simp add: findOneUser_def find_None_iff_ex)

subsection \<open>The example state\<close>

lemma demo_unique_emails: "unique_emails demo_state"
  by (simp add: unique_emails_def demo_state_def alice_def bob_def)

lemma demo_unique_user_ids: "unique_user_ids demo_state"
  by (simp add: unique_user_ids_def demo_state_def alice_def bob_def)

lemma demo_unique_token_ids: "unique_token_ids demo_state"
  by (simp add: unique_token_ids_def demo_state_def stale_token_def live_token_def)

lemma demo_tokens_owned: "tokens_owned demo_state"
  by (simp add: tokens_owned_def demo_state_def stale_token_def live_token_def alice_def bob_def)

subsection \<open>Login\<close>

lemma doCredentialsMatch_found:
  "find (\<lambda>u. email u = e \<and> isVerified u) (users s) = Some u \<Longrightarrow>
   doCredentialsMatch hash e pw s =
     (if hash pw (passwordSalt u) = passwordHash u then Match (select_credentials u) else DontMatch)"
  by (simp add: doCredentialsMatch_def findOneUser_def select_credentials_def Let_def)

lemma doCredentialsMatch_none:
  "\<not> list_ex (\<lambda>u. email u = e \<and> isVerified u) (users s) \<Longrightarrow>
   doCredentialsMatch hash e pw s = DontMatch"
proof -
  assume "\<not> list_ex (\<lambda>u. email u = e \<and> isVerified u) (users s)"
  then have "find (\<lambda>u. email u = e \<and> isVerified u) (users s) = None"
    by (simp add: find_None_iff_ex)
  then show ?thesis
    by (simp add: doCredentialsMatch_def findOneUser_def)
qed

lemma find_verified_account:
  assumes "unique_emails s" "u \<in> set (users s)" "isVerified u"
  shows "find (\<lambda>x. email x = email u \<and> isVerified x) (users s) = Some u"
  using assms unfolding unique_emails_def
  by (intro find_by_key [where f = email]) auto

text \<open>
  Claim C4.  For a verified account \<open>u\<close> (emails being unique) and any password,
  \<^verbatim>\<open>doCredentialsMatch\<close> with the account's email gives \<^verbatim>\<open>match\<close> with the account
  exactly when the hash of the supplied password under the stored salt equals the stored
  hash, and \<^verbatim>\<open>dont-match\<close> otherwise.  The account it returns is the one loaded, which
  carries the two selected columns, hash and salt, only.  The lookup takes verified
  accounts only: with no verified account of the email the result is \<^verbatim>\<open>dont-match\<close>,
  whatever unverified accounts there are.
\<close>

theorem doCredentialsMatch_verified:
  "(unique_emails s \<and> u \<in> set (users s) \<and> isVerified u \<longrightarrow>
      doCredentialsMatch hash (email u) pw s =
        (if hash pw (passwordSalt u) = passwordHash u
         then Match \<lparr>sel_passwordHash = passwordHash u, sel_passwordSalt = passwordSalt u\<rparr>
         else DontMatch)) \<and>
   (\<not> list_ex (\<lambda>x. email x = e \<and> isVerified x) (users s) \<longrightarrow>
      doCredentialsMatch hash e pw s = DontMatch)"
proof (intro conjI impI)
  assume a: "unique_emails s \<and> u \<in> set (users s) \<and> isVerified u"
  then have "find (\<lambda>x. email x = email u \<and> isVerified x) (users s) = Some u"
    by (simp add: find_verified_account)
  then show "doCredentialsMatch hash (email u) pw s =
        (if hash pw (passwordSalt u) = passwordHash u
         then Match \<lparr>sel_passwordHash = passwordHash u, sel_passwordSalt = passwordSalt u\<rparr>
         else DontMatch)"
    using doCredentialsMatch_found [of "email u" s u hash pw]
    by (simp add: select_credentials_def)
next
  assume "\<not> list_ex (\<lambda>x. email x = e \<and> isVerified x) (users s)"
  then show "doCredentialsMatch hash e pw s = DontMatch"
    by (simp add: doCredentialsMatch_none)
qed

text \<open>
  Alice is verified: her password matches, another one does not; Bob is unverified and
  his own password does not match.
\<close>

theorem doCredentialsMatch_verified_witness:
  "doCredentialsMatch toy_hash ''alice@example.org'' ''secret'' demo_state =
     Match \<lparr>sel_passwordHash = ''s1$terces'', sel_passwordSalt = ''s1''\<rparr> \<and>
   doCredentialsMatch toy_hash ''alice@example.org'' ''Secret'' demo_state = DontMatch \<and>
   doCredentialsMatch toy_hash ''bob@example.org'' ''password'' demo_state = DontMatch"
proof -
  have a: "unique_emails demo_state \<and> alice \<in> set (users demo_state) \<and> isVerified alice"
    by (simp add: demo_unique_emails) (simp add: demo_state_def alice_def)
  have b: "\<not> list_ex (\<lambda>x. email x = ''bob@example.org'' \<and> isVerified x) (users demo_state)"
    by (simp add: demo_state_def alice_def bob_def)
  show ?thesis
    using doCredentialsMatch_verified [of demo_state alice toy_hash "''secret''" "''bob@example.org''"]
      doCredentialsMatch_verified [of demo_state alice toy_hash "''Secret''" "''bob@example.org''"]
      doCredentialsMatch_verified [of demo_state alice toy_hash "''password''" "''bob@example.org''"]
      a b
    by (simp add: alice_def toy_hash_def)
qed

lemma login_fails_DontMatch:
  assumes u: "unique_emails s" and f: "login_fails hash e pw s"
  shows "doCredentialsMatch hash e pw s = DontMatch"
proof -
  consider (w) "wrong_password hash e pw s" | (n) "unverified_account hash e pw s"
    | (k) "unknown_email e s"
    using f unfolding login_fails_def by blast
  then show ?thesis
  proof cases
    case w
    then obtain x where x: "x \<in> set (users s)" "email x = e" "isVerified x"
      "hash pw (passwordSalt x) \<noteq> passwordHash x"
      by (auto simp add: wrong_password_def list_ex_iff)
    have "find (\<lambda>y. email y = email x \<and> isVerified y) (users s) = Some x"
      by (rule find_verified_account [OF u x(1) x(3)])
    then show ?thesis
      using doCredentialsMatch_found [of "email x" s x hash pw] x by simp
  next
    case n
    then obtain x where x: "x \<in> set (users s)" "email x = e" "\<not> isVerified x"
      by (auto simp add: unverified_account_def list_ex_iff)
    have "\<not> list_ex (\<lambda>y. email y = e \<and> isVerified y) (users s)"
    proof
      assume "list_ex (\<lambda>y. email y = e \<and> isVerified y) (users s)"
      then obtain y where y: "y \<in> set (users s)" "email y = e" "isVerified y"
        by (auto simp add: list_ex_iff)
      have "x = y"
        using u x y unfolding unique_emails_def
        by (intro same_key_same_row [where f = email and xs = "users s"]) simp_all
      then show False using x y by simp
    qed
    then show ?thesis by (rule doCredentialsMatch_none)
  next
    case k
    then have "\<not> list_ex (\<lambda>y. email y = e \<and> isVerified y) (users s)"
      by (auto simp add: unknown_email_def list_ex_iff)
    then show ?thesis by (rule doCredentialsMatch_none)
  qed
qed

text \<open>
  Claim C5.  Two calls that each fall in one of the three failure cases (a verified
  account's email with a wrong password, an unverified account's own credentials, an
  unknown email) return the same value, the \<^verbatim>\<open>dont-match\<close> variant, which carries
  nothing: the result does not tell the cases apart.
\<close>

theorem login_failures_identical:
  assumes "unique_emails s" "login_fails hash e pw s"
    and "unique_emails s'" "login_fails hash e' pw' s'"
  shows "doCredentialsMatch hash e pw s = doCredentialsMatch hash e' pw' s' \<and>
         doCredentialsMatch hash e pw s = DontMatch"
  using assms by (simp add: login_fails_DontMatch)

text \<open>One call of each kind on the example state.\<close>

theorem login_failures_identical_witness:
  "doCredentialsMatch toy_hash ''alice@example.org'' ''Secret'' demo_state =
     doCredentialsMatch toy_hash ''bob@example.org'' ''password'' demo_state \<and>
   doCredentialsMatch toy_hash ''bob@example.org'' ''password'' demo_state =
     doCredentialsMatch toy_hash ''carol@example.org'' ''hunter2'' demo_state \<and>
   doCredentialsMatch toy_hash ''carol@example.org'' ''hunter2'' demo_state = DontMatch"
proof -
  have w: "login_fails toy_hash ''alice@example.org'' ''Secret'' demo_state"
    by (simp add: login_fails_def wrong_password_def demo_state_def alice_def bob_def toy_hash_def)
  have n: "login_fails toy_hash ''bob@example.org'' ''password'' demo_state"
    by (simp add: login_fails_def unverified_account_def demo_state_def alice_def bob_def
        toy_hash_def)
  have k: "login_fails toy_hash ''carol@example.org'' ''hunter2'' demo_state"
    by (simp add: login_fails_def unknown_email_def demo_state_def alice_def bob_def)
  show ?thesis
    using login_failures_identical [OF demo_unique_emails w demo_unique_emails n]
      login_failures_identical [OF demo_unique_emails n demo_unique_emails k]
      login_failures_identical [OF demo_unique_emails k demo_unique_emails w]
    by simp
qed

subsection \<open>Signup\<close>

lemma upsert_user_fresh:
  "\<not> list_ex (\<lambda>x. user_id x = user_id u) us \<Longrightarrow> upsert_user u us = us @ [u]"
  by (simp add: upsert_user_def)

lemma upsert_token_fresh:
  "\<not> list_ex (\<lambda>x. token_id x = token_id t) ts \<Longrightarrow> upsert_token t ts = ts @ [t]"
  by (simp add: upsert_token_def)

lemma signup_existing:
  "findOneUser (\<lambda>x. email x = dto_email data) s = Some u \<Longrightarrow>
   signup hash salt userUuid tokenUuid now ttl ctx data hostname s =
     (if isVerified u then (AlreadyCreated, s) else (AwaitingVerification, s))"
  by (simp add: signup_def)

lemma signup_new:
  assumes none: "findOneUser (\<lambda>x. email x = dto_email data) s = None"
    and fu: "\<not> list_ex (\<lambda>x. user_id x = userUuid) (users s)"
    and ft: "\<not> list_ex (\<lambda>t. token_id t = tokenUuid) (tokens s)"
  shows "signup hash salt userUuid tokenUuid now ttl ctx data hostname s =
     (Created,
      \<lparr>users = users s @
         [\<lparr>user_id = userUuid, email = dto_email data,
           passwordHash = hash (dto_password data) salt, passwordSalt = salt,
           isVerified = False, role = EndUser\<rparr>],
       tokens = tokens s @
         [\<lparr>token_id = tokenUuid, token_user = userUuid, expires = now + ttl\<rparr>],
       outbox = outbox s @
         [\<lparr>mail_to = dto_email data,
           mail_body =
           [CHR 0x0A] @ ''<p>Click or copy this link to verify your newly created account: <a href=''
             @ [CHR 0x22] @ (hostname @ ''/verify/'' @ tokenUuid) @ [CHR 0x22] @ '' target='' @ [CHR 0x22] @ ''_blank''
             @ [CHR 0x22] @ ''>'' @ (hostname @ ''/verify/'' @ tokenUuid) @ ''</a></p>'' @ [CHR 0x0A]\<rparr>]\<rparr>)"
  using none fu ft
  by (simp add: signup_def createUser_def createToken_def signup_payload_def Let_def
      upsert_user_fresh upsert_token_fresh sendVerificationLinkEmail_def verify_link_def
      verification_body_def)



subsection \<open>Verification\<close>

lemma verifyUser_unknown:
  "\<not> list_ex (\<lambda>t. token_id t = tokenId) (tokens s) \<Longrightarrow> verifyUser ctx tokenId s = (NotFound, s)"
proof -
  assume "\<not> list_ex (\<lambda>t. token_id t = tokenId) (tokens s)"
  then have "find (\<lambda>t. token_id t = tokenId) (tokens s) = None"
    by (simp add: find_None_iff_ex)
  then show ?thesis
    by (simp add: verifyUser_def findTokenById_def)
qed

lemma verifyUser_found:
  "findTokenById tokenId s = Some (t, u) \<Longrightarrow>
   verifyUser ctx tokenId s =
     (Ok, s\<lparr>users := upsert_user (u\<lparr>isVerified := True\<rparr>) (users s),
            tokens := filter (\<lambda>x. token_user x \<noteq> user_id u) (tokens s)\<rparr>)"
  by (simp add: verifyUser_def saveUser_def deleteFromUser_def Let_def)

lemma findTokenById_Some:
  "findTokenById tokenId s = Some (t, u) \<Longrightarrow>
   t \<in> set (tokens s) \<and> token_id t = tokenId \<and> u \<in> set (users s) \<and> user_id u = token_user t"
  by (auto simp add: findTokenById_def split: option.splits dest: find_in_set)

lemma findTokenById_owned:
  assumes ut: "unique_token_ids s" and own: "tokens_owned s"
    and t: "t \<in> set (tokens s)"
  shows "\<exists>u. findTokenById (token_id t) s = Some (t, u)"
proof -
  have ft: "find (\<lambda>x. token_id x = token_id t) (tokens s) = Some t"
    using ut t unfolding unique_token_ids_def
    by (intro find_by_key [where f = token_id]) auto
  have "list_ex (\<lambda>u. user_id u = token_user t) (users s)"
    using own t by (simp add: tokens_owned_def list_all_iff)
  then obtain u where "find (\<lambda>u. user_id u = token_user t) (users s) = Some u"
    using find_None_iff_ex [of "\<lambda>u. user_id u = token_user t" "users s"] by auto
  then show ?thesis
    using ft by (simp add: findTokenById_def)
qed

lemma upsert_user_flag:
  assumes uu: "distinct (map user_id us)" and u: "u \<in> set us"
  shows "upsert_user (u\<lparr>isVerified := True\<rparr>) us =
           map (\<lambda>x. if user_id x = user_id u then x\<lparr>isVerified := True\<rparr> else x) us"
proof -
  have ex: "list_ex (\<lambda>x. user_id x = user_id u) us"
    using u by (auto simp add: list_ex_iff)
  have "map (\<lambda>x. if user_id x = user_id u then u\<lparr>isVerified := True\<rparr> else x) us =
        map (\<lambda>x. if user_id x = user_id u then x\<lparr>isVerified := True\<rparr> else x) us"
  proof (rule map_cong [OF refl])
    fix x assume x: "x \<in> set us"
    show "(if user_id x = user_id u then u\<lparr>isVerified := True\<rparr> else x) =
          (if user_id x = user_id u then x\<lparr>isVerified := True\<rparr> else x)"
      using same_key_same_row [OF uu x u] by auto
  qed
  then show ?thesis
    using ex by (simp add: upsert_user_def)
qed

text \<open>
  Claim C2.  With a token id that no stored token has, \<^verbatim>\<open>verifyUser\<close> returns
  \<^verbatim>\<open>not-found\<close> and the state is unchanged.  With the id of a stored token \<open>t\<close> (keys
  unique, every token owned by an account), it returns \<^verbatim>\<open>ok\<close>, the owning account is
  stored with its verified flag true, and every token of that account is deleted, not
  only \<open>t\<close>; no other row changes.
\<close>

theorem verifyUser_cases:
  "(\<not> list_ex (\<lambda>x. token_id x = tokenId) (tokens s) \<longrightarrow>
      verifyUser ctx tokenId s = (NotFound, s)) \<and>
   (unique_user_ids s \<and> unique_token_ids s \<and> tokens_owned s \<and>
    t \<in> set (tokens s) \<and> token_id t = tokenId \<longrightarrow>
      verifyUser ctx tokenId s =
        (Ok, s\<lparr>users := map (\<lambda>x. if user_id x = token_user t
                                   then x\<lparr>isVerified := True\<rparr> else x) (users s),
               tokens := filter (\<lambda>x. token_user x \<noteq> token_user t) (tokens s)\<rparr>))"
proof (intro conjI impI)
  assume "\<not> list_ex (\<lambda>x. token_id x = tokenId) (tokens s)"
  then show "verifyUser ctx tokenId s = (NotFound, s)"
    by (rule verifyUser_unknown)
next
  assume a: "unique_user_ids s \<and> unique_token_ids s \<and> tokens_owned s \<and>
    t \<in> set (tokens s) \<and> token_id t = tokenId"
  then obtain u where f: "findTokenById tokenId s = Some (t, u)"
    using findTokenById_owned [of s t] by auto
  then have u: "u \<in> set (users s)" "user_id u = token_user t"
    using findTokenById_Some by blast+
  have "upsert_user (u\<lparr>isVerified := True\<rparr>) (users s) =
          map (\<lambda>x. if user_id x = user_id u then x\<lparr>isVerified := True\<rparr> else x) (users s)"
    using a u by (intro upsert_user_flag) (simp_all add: unique_user_ids_def)
  then show "verifyUser ctx tokenId s =
        (Ok, s\<lparr>users := map (\<lambda>x. if user_id x = token_user t
                                   then x\<lparr>isVerified := True\<rparr> else x) (users s),
               tokens := filter (\<lambda>x. token_user x \<noteq> token_user t) (tokens s)\<rparr>)"
    using verifyUser_found [OF f, of ctx] u by simp
qed

text \<open>
  An unknown id; then Bob's live token, whose use verifies Bob and also deletes his
  stale token.
\<close>

theorem verifyUser_cases_witness:
  "verifyUser () ''t9'' demo_state = (NotFound, demo_state) \<and>
   verifyUser () ''t1'' demo_state =
     (Ok, \<lparr>users = [alice, bob\<lparr>isVerified := True\<rparr>], tokens = [], outbox = []\<rparr>)"
proof -
  have n: "\<not> list_ex (\<lambda>x. token_id x = ''t9'') (tokens demo_state)"
    by (simp add: demo_state_def stale_token_def live_token_def)
  have f: "unique_user_ids demo_state \<and> unique_token_ids demo_state \<and> tokens_owned demo_state \<and>
           live_token \<in> set (tokens demo_state) \<and> token_id live_token = ''t1''"
    by (simp add: demo_unique_user_ids demo_unique_token_ids demo_tokens_owned)
       (simp add: demo_state_def live_token_def)
  show ?thesis
    using verifyUser_cases [of "''t9''" demo_state "()" live_token]
      verifyUser_cases [of "''t1''" demo_state "()" live_token] n f
    by (simp add: demo_state_def live_token_def stale_token_def alice_def bob_def)
qed

text \<open>
  Claim C6.  When \<^verbatim>\<open>verifyUser\<close> has returned \<^verbatim>\<open>ok\<close> for a token id (token ids being
  unique), no token of the owning account remains, and a second call with the same id on
  the resulting state returns \<^verbatim>\<open>not-found\<close>.
\<close>

theorem verifyUser_twice:
  assumes ut: "unique_token_ids s"
    and ok: "fst (verifyUser ctx tokenId s) = Ok"
  shows "fst (verifyUser ctx tokenId (snd (verifyUser ctx tokenId s))) = NotFound \<and>
         (\<forall>t u. findTokenById tokenId s = Some (t, u) \<longrightarrow>
            \<not> list_ex (\<lambda>x. token_user x = user_id u) (tokens (snd (verifyUser ctx tokenId s))))"
proof -
  obtain t u where f: "findTokenById tokenId s = Some (t, u)"
    using ok by (cases "findTokenById tokenId s") (auto simp add: verifyUser_def)
  let ?s = "snd (verifyUser ctx tokenId s)"
  have ts: "tokens ?s = filter (\<lambda>x. token_user x \<noteq> user_id u) (tokens s)"
    using verifyUser_found [OF f, of ctx] by simp
  have tu: "t \<in> set (tokens s)" "token_id t = tokenId" "user_id u = token_user t"
    using findTokenById_Some [OF f] by simp_all
  have none: "\<not> list_ex (\<lambda>x. token_user x = user_id u) (tokens ?s)"
    by (simp add: ts list_ex_iff)
  have "\<not> list_ex (\<lambda>x. token_id x = tokenId) (tokens ?s)"
  proof
    assume "list_ex (\<lambda>x. token_id x = tokenId) (tokens ?s)"
    then obtain x where x: "x \<in> set (tokens s)" "token_user x \<noteq> user_id u" "token_id x = tokenId"
      by (auto simp add: ts list_ex_iff)
    have "x = t"
      using ut x tu unfolding unique_token_ids_def
      by (intro same_key_same_row [where f = token_id and xs = "tokens s"]) simp_all
    then show False using x tu by simp
  qed
  then have "verifyUser ctx tokenId ?s = (NotFound, ?s)"
    by (rule verifyUser_unknown)
  then show ?thesis
    using none f by simp
qed

text \<open>Bob's live token, used twice.\<close>

theorem verifyUser_twice_witness:
  "fst (verifyUser () ''t1'' demo_state) = Ok \<and>
   fst (verifyUser () ''t1'' (snd (verifyUser () ''t1'' demo_state))) = NotFound"
proof -
  have ok: "fst (verifyUser () ''t1'' demo_state) = Ok"
    by (simp add: verifyUser_def findTokenById_def demo_state_def stale_token_def
        live_token_def alice_def bob_def Let_def)
  show ?thesis
    using verifyUser_twice [OF demo_unique_token_ids ok] ok by simp
qed

subsection \<open>Resending the link\<close>

lemma resend_unknown:
  "\<not> list_ex (\<lambda>x. email x = e) (users s) \<Longrightarrow>
   resendSignupVerificationToken now ttl tokenUuid e hostname s = (NotFound, s)"
  by (simp add: resendSignupVerificationToken_def findOneUser_unknown)

lemma resend_live:
  "findOneUser (\<lambda>x. email x = e) s = Some u \<Longrightarrow> findTokenByUser now u s = Some t \<Longrightarrow>
   resendSignupVerificationToken now ttl tokenUuid e hostname s =
     (Ok, s\<lparr>outbox := outbox s @
        [\<lparr>mail_to = email u,
          mail_body =
           [CHR 0x0A] @ ''<p>Click or copy this link to verify your newly created account: <a href=''
             @ [CHR 0x22] @ (hostname @ ''/verify/'' @ token_id t) @ [CHR 0x22] @ '' target='' @ [CHR 0x22] @ ''_blank''
             @ [CHR 0x22] @ ''>'' @ (hostname @ ''/verify/'' @ token_id t) @ ''</a></p>'' @ [CHR 0x0A]\<rparr>]\<rparr>)"
  by (simp add: resendSignupVerificationToken_def sendVerificationLinkEmail_def verify_link_def
      verification_body_def)

lemma resend_stale:
  assumes "findOneUser (\<lambda>x. email x = e) s = Some u"
    and "findTokenByUser now u s = None"
    and "\<not> list_ex (\<lambda>t. token_id t = tokenUuid) (tokens s)"
  shows "resendSignupVerificationToken now ttl tokenUuid e hostname s =
     (Ok, s\<lparr>tokens := filter (\<lambda>t. token_user t \<noteq> user_id u) (tokens s) @
               [\<lparr>token_id = tokenUuid, token_user = user_id u, expires = now + ttl\<rparr>],
            outbox := outbox s @
               [\<lparr>mail_to = email u,
                 mail_body =
           [CHR 0x0A] @ ''<p>Click or copy this link to verify your newly created account: <a href=''
             @ [CHR 0x22] @ (hostname @ ''/verify/'' @ tokenUuid) @ [CHR 0x22] @ '' target='' @ [CHR 0x22] @ ''_blank''
             @ [CHR 0x22] @ ''>'' @ (hostname @ ''/verify/'' @ tokenUuid) @ ''</a></p>'' @ [CHR 0x0A]\<rparr>]\<rparr>)"
proof -
  have "\<not> list_ex (\<lambda>t. token_id t = tokenUuid) (filter (\<lambda>t. token_user t \<noteq> user_id u) (tokens s))"
    using assms(3) by (auto simp add: list_ex_iff)
  then have "upsert_token \<lparr>token_id = tokenUuid, token_user = user_id u, expires = now + ttl\<rparr>
               (filter (\<lambda>t. token_user t \<noteq> user_id u) (tokens s)) =
             filter (\<lambda>t. token_user t \<noteq> user_id u) (tokens s) @
               [\<lparr>token_id = tokenUuid, token_user = user_id u, expires = now + ttl\<rparr>]"
    by (simp add: upsert_token_fresh)
  then show ?thesis
    using assms(1,2)
    by (simp add: resendSignupVerificationToken_def deleteFromUser_def createToken_def Let_def
        sendVerificationLinkEmail_def verify_link_def
      verification_body_def)
qed

text \<open>
  Claim C3.  \<^verbatim>\<open>resendSignupVerificationToken\<close> for an email of no account returns
  \<^verbatim>\<open>not-found\<close>.  For the email of an account \<open>u\<close> that has a live token, the tokens are
  unchanged, and one mail is sent to the account whose link ends in the identifier of a
  live token of \<open>u\<close>.  For an account with no live token, all its (stale) tokens are
  deleted, one token is created that expires \<open>ttl\<close> after now, and the mail's link ends
  in the new token's identifier.  In both cases the result is \<^verbatim>\<open>ok\<close>, and the mail's body
  is the template of \<^verbatim>\<open>sendVerificationLinkEmail\<close>, written out below, with the link
  (base address, \<^verbatim>\<open>/verify/\<close>, token identifier) in its \<^verbatim>\<open>href\<close> and in its text.
\<close>

theorem resend_cases:
  "(\<not> list_ex (\<lambda>x. email x = e) (users s) \<longrightarrow>
      resendSignupVerificationToken now ttl tokenUuid e hostname s = (NotFound, s)) \<and>
   (unique_emails s \<and> u \<in> set (users s) \<and> email u = e \<and>
    list_ex (\<lambda>t. token_user t = user_id u \<and> live now t) (tokens s) \<longrightarrow>
      (\<exists>t\<in>set (tokens s). token_user t = user_id u \<and> live now t \<and>
         resendSignupVerificationToken now ttl tokenUuid e hostname s =
           (Ok, s\<lparr>outbox := outbox s @
              [\<lparr>mail_to = e,
                mail_body =
           [CHR 0x0A] @ ''<p>Click or copy this link to verify your newly created account: <a href=''
             @ [CHR 0x22] @ (hostname @ ''/verify/'' @ token_id t) @ [CHR 0x22] @ '' target='' @ [CHR 0x22] @ ''_blank''
             @ [CHR 0x22] @ ''>'' @ (hostname @ ''/verify/'' @ token_id t) @ ''</a></p>'' @ [CHR 0x0A]\<rparr>]\<rparr>))) \<and>
   (unique_emails s \<and> u \<in> set (users s) \<and> email u = e \<and>
    \<not> list_ex (\<lambda>t. token_user t = user_id u \<and> live now t) (tokens s) \<and>
    \<not> list_ex (\<lambda>t. token_id t = tokenUuid) (tokens s) \<longrightarrow>
      resendSignupVerificationToken now ttl tokenUuid e hostname s =
        (Ok, s\<lparr>tokens := filter (\<lambda>t. token_user t \<noteq> user_id u) (tokens s) @
                  [\<lparr>token_id = tokenUuid, token_user = user_id u, expires = now + ttl\<rparr>],
               outbox := outbox s @
                  [\<lparr>mail_to = e,
                    mail_body =
           [CHR 0x0A] @ ''<p>Click or copy this link to verify your newly created account: <a href=''
             @ [CHR 0x22] @ (hostname @ ''/verify/'' @ tokenUuid) @ [CHR 0x22] @ '' target='' @ [CHR 0x22] @ ''_blank''
             @ [CHR 0x22] @ ''>'' @ (hostname @ ''/verify/'' @ tokenUuid) @ ''</a></p>'' @ [CHR 0x0A]\<rparr>]\<rparr>))"
proof (intro conjI impI)
  assume "\<not> list_ex (\<lambda>x. email x = e) (users s)"
  then show "resendSignupVerificationToken now ttl tokenUuid e hostname s = (NotFound, s)"
    by (rule resend_unknown)
next
  assume a: "unique_emails s \<and> u \<in> set (users s) \<and> email u = e \<and>
    list_ex (\<lambda>t. token_user t = user_id u \<and> live now t) (tokens s)"
  then have fu: "findOneUser (\<lambda>x. email x = e) s = Some u"
    using findOneUser_by_email [of s u] by auto
  obtain t where ft: "findTokenByUser now u s = Some t"
    using a find_None_iff_ex [of "\<lambda>t. token_user t = user_id u \<and> live now t" "tokens s"]
    by (auto simp add: findTokenByUser_def)
  then have t: "t \<in> set (tokens s)" "token_user t = user_id u" "live now t"
    using find_in_set [of "\<lambda>t. token_user t = user_id u \<and> live now t" "tokens s" t]
    by (simp_all add: findTokenByUser_def)
  show "\<exists>t\<in>set (tokens s). token_user t = user_id u \<and> live now t \<and>
         resendSignupVerificationToken now ttl tokenUuid e hostname s =
           (Ok, s\<lparr>outbox := outbox s @
              [\<lparr>mail_to = e,
                mail_body =
           [CHR 0x0A] @ ''<p>Click or copy this link to verify your newly created account: <a href=''
             @ [CHR 0x22] @ (hostname @ ''/verify/'' @ token_id t) @ [CHR 0x22] @ '' target='' @ [CHR 0x22] @ ''_blank''
             @ [CHR 0x22] @ ''>'' @ (hostname @ ''/verify/'' @ token_id t) @ ''</a></p>'' @ [CHR 0x0A]\<rparr>]\<rparr>)"
    using resend_live [OF fu ft, of ttl tokenUuid hostname] t a
    by (intro bexI [of _ t]) simp_all
next
  assume a: "unique_emails s \<and> u \<in> set (users s) \<and> email u = e \<and>
    \<not> list_ex (\<lambda>t. token_user t = user_id u \<and> live now t) (tokens s) \<and>
    \<not> list_ex (\<lambda>t. token_id t = tokenUuid) (tokens s)"
  then have fu: "findOneUser (\<lambda>x. email x = e) s = Some u"
    using findOneUser_by_email [of s u] by auto
  have ft: "findTokenByUser now u s = None"
    using a by (simp add: findTokenByUser_def find_None_iff_ex)
  show "resendSignupVerificationToken now ttl tokenUuid e hostname s =
        (Ok, s\<lparr>tokens := filter (\<lambda>t. token_user t \<noteq> user_id u) (tokens s) @
                  [\<lparr>token_id = tokenUuid, token_user = user_id u, expires = now + ttl\<rparr>],
               outbox := outbox s @
                  [\<lparr>mail_to = e,
                    mail_body =
           [CHR 0x0A] @ ''<p>Click or copy this link to verify your newly created account: <a href=''
             @ [CHR 0x22] @ (hostname @ ''/verify/'' @ tokenUuid) @ [CHR 0x22] @ '' target='' @ [CHR 0x22] @ ''_blank''
             @ [CHR 0x22] @ ''>'' @ (hostname @ ''/verify/'' @ tokenUuid) @ ''</a></p>'' @ [CHR 0x0A]\<rparr>]\<rparr>)"
    using resend_stale [OF fu ft, of tokenUuid ttl hostname] a by simp
qed

text \<open>
  An unknown email; Bob while his token \<^verbatim>\<open>t1\<close> is live; Bob after both his tokens have
  expired.
\<close>

theorem resend_cases_witness:
  "resendSignupVerificationToken 50 1000 ''t2'' ''carol@example.org'' ''https://x'' demo_state =
     (NotFound, demo_state) \<and>
   resendSignupVerificationToken 50 1000 ''t2'' ''bob@example.org'' ''https://x'' demo_state =
     (Ok, demo_state\<lparr>outbox :=
        [\<lparr>mail_to = ''bob@example.org'',
          mail_body =
           [CHR 0x0A] @ ''<p>Click or copy this link to verify your newly created account: <a href=''
             @ [CHR 0x22] @ ''https://x/verify/t1'' @ [CHR 0x22] @ '' target='' @ [CHR 0x22] @ ''_blank''
             @ [CHR 0x22] @ ''>'' @ ''https://x/verify/t1'' @ ''</a></p>'' @ [CHR 0x0A]\<rparr>]\<rparr>) \<and>
   resendSignupVerificationToken 200 1000 ''t2'' ''bob@example.org'' ''https://x'' demo_state =
     (Ok, demo_state\<lparr>tokens := [\<lparr>token_id = ''t2'', token_user = ''u2'', expires = 1200\<rparr>],
        outbox :=
        [\<lparr>mail_to = ''bob@example.org'',
          mail_body =
           [CHR 0x0A] @ ''<p>Click or copy this link to verify your newly created account: <a href=''
             @ [CHR 0x22] @ ''https://x/verify/t2'' @ [CHR 0x22] @ '' target='' @ [CHR 0x22] @ ''_blank''
             @ [CHR 0x22] @ ''>'' @ ''https://x/verify/t2'' @ ''</a></p>'' @ [CHR 0x0A]\<rparr>]\<rparr>)"
proof -
  have n: "\<not> list_ex (\<lambda>x. email x = ''carol@example.org'') (users demo_state)"
    by (simp add: demo_state_def alice_def bob_def)
  have l: "unique_emails demo_state \<and> bob \<in> set (users demo_state) \<and>
           email bob = ''bob@example.org'' \<and>
           list_ex (\<lambda>t. token_user t = user_id bob \<and> live 50 t) (tokens demo_state)"
    by (simp add: demo_unique_emails)
       (simp add: demo_state_def bob_def stale_token_def live_token_def live_def)
  have st: "unique_emails demo_state \<and> bob \<in> set (users demo_state) \<and>
           email bob = ''bob@example.org'' \<and>
           \<not> list_ex (\<lambda>t. token_user t = user_id bob \<and> live 200 t) (tokens demo_state) \<and>
           \<not> list_ex (\<lambda>t. token_id t = ''t2'') (tokens demo_state)"
    by (simp add: demo_unique_emails)
       (simp add: demo_state_def bob_def stale_token_def live_token_def live_def)
  have lv: "\<forall>t\<in>set (tokens demo_state). token_user t = user_id bob \<and> live 50 t \<longrightarrow>
              token_id t = ''t1''"
    by (simp add: demo_state_def bob_def stale_token_def live_token_def live_def)
  have fl: "filter (\<lambda>t. token_user t \<noteq> user_id bob) (tokens demo_state) = []"
    by (simp add: demo_state_def bob_def stale_token_def live_token_def)
  have r1: "resendSignupVerificationToken 50 1000 ''t2'' ''carol@example.org'' ''https://x'' demo_state =
     (NotFound, demo_state)"
    using resend_cases [of "''carol@example.org''" demo_state 50 1000 "''t2''" "''https://x''" bob] n
    by simp
  have r2: "resendSignupVerificationToken 50 1000 ''t2'' ''bob@example.org'' ''https://x'' demo_state =
     (Ok, demo_state\<lparr>outbox :=
        [\<lparr>mail_to = ''bob@example.org'',
          mail_body =
           [CHR 0x0A] @ ''<p>Click or copy this link to verify your newly created account: <a href=''
             @ [CHR 0x22] @ ''https://x/verify/t1'' @ [CHR 0x22] @ '' target='' @ [CHR 0x22] @ ''_blank''
             @ [CHR 0x22] @ ''>'' @ ''https://x/verify/t1'' @ ''</a></p>'' @ [CHR 0x0A]\<rparr>]\<rparr>)"
  proof -
    obtain t where t: "t \<in> set (tokens demo_state)" "token_user t = user_id bob \<and> live 50 t"
      and r: "resendSignupVerificationToken 50 1000 ''t2'' ''bob@example.org'' ''https://x'' demo_state =
           (Ok, demo_state\<lparr>outbox := outbox demo_state @
              [\<lparr>mail_to = ''bob@example.org'',
                mail_body =
           [CHR 0x0A] @ ''<p>Click or copy this link to verify your newly created account: <a href=''
             @ [CHR 0x22] @ (''https://x'' @ ''/verify/'' @ token_id t) @ [CHR 0x22] @ '' target='' @ [CHR 0x22] @ ''_blank''
             @ [CHR 0x22] @ ''>'' @ (''https://x'' @ ''/verify/'' @ token_id t) @ ''</a></p>'' @ [CHR 0x0A]\<rparr>]\<rparr>)"
      using resend_cases [of "''bob@example.org''" demo_state 50 1000 "''t2''" "''https://x''" bob] l
      by blast
    have "token_id t = ''t1''"
      using lv t by blast
    then show ?thesis
      using r by (simp add: demo_state_def)
  qed
  have r3: "resendSignupVerificationToken 200 1000 ''t2'' ''bob@example.org'' ''https://x'' demo_state =
     (Ok, demo_state\<lparr>tokens := [\<lparr>token_id = ''t2'', token_user = ''u2'', expires = 1200\<rparr>],
        outbox :=
        [\<lparr>mail_to = ''bob@example.org'',
          mail_body =
           [CHR 0x0A] @ ''<p>Click or copy this link to verify your newly created account: <a href=''
             @ [CHR 0x22] @ ''https://x/verify/t2'' @ [CHR 0x22] @ '' target='' @ [CHR 0x22] @ ''_blank''
             @ [CHR 0x22] @ ''>'' @ ''https://x/verify/t2'' @ ''</a></p>'' @ [CHR 0x0A]\<rparr>]\<rparr>)"
    using resend_cases [of "''bob@example.org''" demo_state 200 1000 "''t2''" "''https://x''" bob] st fl
    by (simp add: demo_state_def bob_def)
  show ?thesis
    using r1 r2 r3 by simp
qed

subsection \<open>The integrity constraints are kept\<close>

text \<open>
  The constraints the statements above assume are invariants of the service: each of its
  three transactions leads from a state that has them to a state that has them, as long
  as the generated identifiers are new.
\<close>

lemma tokens_owned_iff:
  "tokens_owned s = (\<forall>t\<in>set (tokens s). \<exists>u\<in>set (users s). user_id u = token_user t)"
  by (simp add: tokens_owned_def list_all_iff list_ex_iff)

lemma map_email_flag:
  "map email (map (\<lambda>x. if user_id x = k then x\<lparr>isVerified := True\<rparr> else x) us) = map email us"
  by (induction us) simp_all

lemma map_user_id_flag:
  "map user_id (map (\<lambda>x. if user_id x = k then x\<lparr>isVerified := True\<rparr> else x) us) = map user_id us"
  by (induction us) simp_all

lemma not_list_ex_iff: "(\<not> list_ex P xs) = (\<forall>x\<in>set xs. \<not> P x)"
  by (simp add: list_ex_iff)

lemma signup_integrity:
  assumes i: "integrity s"
    and fu: "\<not> list_ex (\<lambda>x. user_id x = userUuid) (users s)"
    and ft: "\<not> list_ex (\<lambda>t. token_id t = tokenUuid) (tokens s)"
  shows "integrity (snd (signup hash salt userUuid tokenUuid now ttl ctx data hostname s))"
proof (cases "findOneUser (\<lambda>x. email x = dto_email data) s")
  case None
  then have e: "\<forall>x\<in>set (users s). email x \<noteq> dto_email data"
    by (simp add: findOneUser_def find_None_iff)
  have "\<forall>x\<in>set (users s). user_id x \<noteq> userUuid" "\<forall>t\<in>set (tokens s). token_id t \<noteq> tokenUuid"
    using fu ft by (simp_all add: not_list_ex_iff)
  then show ?thesis
    using i e signup_new [OF None fu ft, of hash salt now ttl ctx hostname]
    by (auto simp add: integrity_def unique_emails_def unique_user_ids_def unique_token_ids_def
        tokens_owned_iff)
next
  case (Some u)
  then show ?thesis
    using i by (simp add: signup_existing)
qed

lemma verifyUser_integrity:
  assumes i: "integrity s"
  shows "integrity (snd (verifyUser ctx tokenId s))"
proof (cases "findTokenById tokenId s")
  case None
  then show ?thesis
    using i by (simp add: verifyUser_def)
next
  case (Some p)
  obtain t u where p: "p = (t, u)" by (cases p)
  have f: "findTokenById tokenId s = Some (t, u)" using Some p by simp
  have u: "u \<in> set (users s)" using findTokenById_Some [OF f] by simp
  let ?us = "map (\<lambda>x. if user_id x = user_id u then x\<lparr>isVerified := True\<rparr> else x) (users s)"
  let ?ts = "filter (\<lambda>x. token_user x \<noteq> user_id u) (tokens s)"
  have up: "upsert_user (u\<lparr>isVerified := True\<rparr>) (users s) = ?us"
    using i u by (intro upsert_user_flag) (simp_all add: integrity_def unique_user_ids_def)
  have s': "snd (verifyUser ctx tokenId s) = s\<lparr>users := ?us, tokens := ?ts\<rparr>"
    using verifyUser_found [OF f, of ctx] up by simp
  have e: "distinct (map email ?us)"
    using i unfolding map_email_flag by (simp add: integrity_def unique_emails_def)
  have d: "distinct (map user_id ?us)"
    using i unfolding map_user_id_flag by (simp add: integrity_def unique_user_ids_def)
  have k: "distinct (map token_id ?ts)"
    using i by (simp add: integrity_def unique_token_ids_def distinct_map_filter)
  have ids: "user_id ` set ?us = user_id ` set (users s)"
    using map_user_id_flag [of "user_id u" "users s"] by (metis list.set_map)
  have o: "\<forall>t\<in>set ?ts. \<exists>x\<in>set ?us. user_id x = token_user t"
  proof
    fix t assume "t \<in> set ?ts"
    then have "t \<in> set (tokens s)" by simp
    then have "token_user t \<in> user_id ` set (users s)"
      using i unfolding integrity_def tokens_owned_iff by (metis imageI)
    then have "token_user t \<in> user_id ` set ?us"
      using ids by simp
    then show "\<exists>x\<in>set ?us. user_id x = token_user t"
      by (metis (no_types, lifting) imageE)
  qed
  show ?thesis
    unfolding s' integrity_def unique_emails_def unique_user_ids_def unique_token_ids_def
      tokens_owned_iff
    using e d k o by simp
qed

lemma resend_integrity:
  assumes i: "integrity s"
    and ft: "\<not> list_ex (\<lambda>t. token_id t = tokenUuid) (tokens s)"
  shows "integrity (snd (resendSignupVerificationToken now ttl tokenUuid e hostname s))"
proof (cases "findOneUser (\<lambda>x. email x = e) s")
  case None
  then show ?thesis
    using i by (simp add: resendSignupVerificationToken_def)
next
  case (Some u)
  then have u: "u \<in> set (users s)"
    using find_in_set [of "\<lambda>x. email x = e" "users s" u] by (simp add: findOneUser_def)
  show ?thesis
  proof (cases "findTokenByUser now u s")
    case None
    have "\<forall>t\<in>set (tokens s). token_id t \<noteq> tokenUuid"
      using ft by (simp add: not_list_ex_iff)
    then show ?thesis
      using i u resend_stale [OF Some None ft, of ttl hostname]
      by (auto simp add: integrity_def unique_emails_def unique_user_ids_def unique_token_ids_def
          tokens_owned_iff distinct_map_filter intro!: bexI [of _ u])
  next
    case (Some t)
    then show ?thesis
      using i resend_live [OF \<open>findOneUser (\<lambda>x. email x = e) s = Some u\<close> Some, of ttl tokenUuid hostname]
      by (simp add: integrity_def unique_emails_def unique_user_ids_def unique_token_ids_def
          tokens_owned_def)
  qed
qed

end
